theory Spec2Isabelle
  imports Main "HOL-Library.Sublist" "HOL-Library.Char_ord" "HOL-Library.List_Lexorder"
begin

section \<open>Strings\<close>

text \<open>
  A Go \<^verbatim>\<open>string\<close> is an immutable sequence of bytes; it is modelled as a \<^typ>\<open>string\<close>,
  a list of 8-bit characters.  The functions of package \<^verbatim>\<open>strings\<close> used by the plugin
  are written out on byte lists.
\<close>

text \<open>\<^verbatim>\<open>strings.HasPrefix(s, prefix)\<close>: \<^verbatim>\<open>len(s) >= len(prefix) && s[0:len(prefix)] == prefix\<close>.\<close>

definition HasPrefix :: "string \<Rightarrow> string \<Rightarrow> bool" where
  "HasPrefix s pre = (length pre \<le> length s \<and> take (length pre) s = pre)"

text \<open>
  \<^verbatim>\<open>strings.Index(s, substr)\<close>: the index of the first instance of \<^verbatim>\<open>substr\<close> in \<^verbatim>\<open>s\<close>,
  or \<open>-1\<close> when there is none.
\<close>

fun Index :: "string \<Rightarrow> string \<Rightarrow> int" where
  "Index [] sub = (if sub = [] then 0 else - 1)"
| "Index (c # cs) sub =
     (if HasPrefix (c # cs) sub then 0
      else (let i = Index cs sub in if i < 0 then - 1 else i + 1))"

text \<open>\<^verbatim>\<open>strings.Contains(s, substr)\<close> is \<^verbatim>\<open>Index(s, substr) >= 0\<close>.\<close>

definition Contains :: "string \<Rightarrow> string \<Rightarrow> bool" where
  "Contains s sub = (0 \<le> Index s sub)"

text \<open>\<^verbatim>\<open>strings.Join(elems, sep)\<close>.\<close>

fun Join :: "string list \<Rightarrow> string \<Rightarrow> string" where
  "Join [] sep = []"
| "Join [w] sep = w"
| "Join (w # v # ws) sep = w @ sep @ Join (v # ws) sep"

subsection \<open>White space and \<^verbatim>\<open>strings.Fields\<close>\<close>

text \<open>
  \<^verbatim>\<open>strings.Fields\<close> splits a string around each run of white space runes, as defined
  by \<^verbatim>\<open>unicode.IsSpace\<close>: the six ASCII characters of the table \<^verbatim>\<open>asciiSpace\<close>
  (tab, line feed, vertical tab, form feed, carriage return, space) and the runes
  U+0085, U+00A0, U+1680, U+2000 to U+200A, U+2028, U+2029, U+202F, U+205F and U+3000.
  Go decodes the bytes as UTF-8, and a byte that starts no valid encoding is the rune
  U+FFFD of width one, which is no white space.  A lead byte of a multi-byte encoding
  never lies inside another valid encoding, so a white space rune is read exactly where
  its UTF-8 encoding stands in the byte sequence: \<open>spaceWidth s\<close> is the width in bytes
  of the white space rune that \<open>s\<close> starts with, and \<open>0\<close> when it starts with none.
\<close>

definition asciiSpace :: "char \<Rightarrow> bool" where
  "asciiSpace c =
     (c = CHR 0x09 \<or> c = CHR 0x0A \<or> c = CHR 0x0B \<or> c = CHR 0x0C \<or> c = CHR 0x0D \<or> c = CHR 0x20)"

text \<open>The UTF-8 encodings of the white space runes, in code point order.\<close>

definition spaceRunes :: "string list" where
  "spaceRunes =
     [[CHR 0x09], [CHR 0x0A], [CHR 0x0B], [CHR 0x0C], [CHR 0x0D], [CHR 0x20],
      [CHR 0xC2, CHR 0x85], [CHR 0xC2, CHR 0xA0],
      [CHR 0xE1, CHR 0x9A, CHR 0x80],
      [CHR 0xE2, CHR 0x80, CHR 0x80], [CHR 0xE2, CHR 0x80, CHR 0x81],
      [CHR 0xE2, CHR 0x80, CHR 0x82], [CHR 0xE2, CHR 0x80, CHR 0x83],
      [CHR 0xE2, CHR 0x80, CHR 0x84], [CHR 0xE2, CHR 0x80, CHR 0x85],
      [CHR 0xE2, CHR 0x80, CHR 0x86], [CHR 0xE2, CHR 0x80, CHR 0x87],
      [CHR 0xE2, CHR 0x80, CHR 0x88], [CHR 0xE2, CHR 0x80, CHR 0x89],
      [CHR 0xE2, CHR 0x80, CHR 0x8A],
      [CHR 0xE2, CHR 0x80, CHR 0xA8], [CHR 0xE2, CHR 0x80, CHR 0xA9],
      [CHR 0xE2, CHR 0x80, CHR 0xAF],
      [CHR 0xE2, CHR 0x81, CHR 0x9F],
      [CHR 0xE3, CHR 0x80, CHR 0x80]]"

definition spaceWidth :: "string \<Rightarrow> nat" where
  "spaceWidth s =
     (case find (\<lambda>enc. HasPrefix s enc) spaceRunes of
        None \<Rightarrow> 0
      | Some enc \<Rightarrow> length enc)"

text \<open>
  The field under construction is \<open>cur\<close>; a white space rune closes it and is skipped,
  any other byte is appended to it.  Empty fields are never produced.
\<close>

function fieldsFrom :: "string \<Rightarrow> string \<Rightarrow> string list" where
  "fieldsFrom cur [] = (if cur = [] then [] else [cur])"
| "fieldsFrom cur (c # cs) =
     (if spaceWidth (c # cs) = 0 then fieldsFrom (cur @ [c]) cs
      else (if cur = [] then [] else [cur])
           @ fieldsFrom [] (drop (spaceWidth (c # cs)) (c # cs)))"
  by pat_completeness auto
termination
  by (relation "measure (\<lambda>(cur, s). length s)") auto

definition Fields :: "string \<Rightarrow> string list" where
  "Fields s = fieldsFrom [] s"

text \<open>A string holds no white space rune.\<close>

fun noSpace :: "string \<Rightarrow> bool" where
  "noSpace [] = True"
| "noSpace (c # cs) = (spaceWidth (c # cs) = 0 \<and> noSpace cs)"

section \<open>The text annotator\<close>

text \<open>
  The inner loop of \<^verbatim>\<open>insertLinksIntoComment\<close>: it ranges over \<^verbatim>\<open>validIssues\<close> and
  breaks at the first one the word contains.
\<close>

fun isIssue :: "string \<Rightarrow> string list \<Rightarrow> bool" where
  "isIssue word [] = False"
| "isIssue word (issue # rest) = (if Contains word issue then True else isIssue word rest)"

text \<open>\<^verbatim>\<open>fmt.Sprintf("[%s](%s/browse/%s)", words[i], jiraBaseURL, words[i])\<close>.\<close>

definition linkFor :: "string \<Rightarrow> string \<Rightarrow> string" where
  "linkFor word jiraBaseURL =
     ''['' @ word @ '']('' @ jiraBaseURL @ ''/browse/'' @ word @ '')''"

text \<open>
  The outer loop \<^verbatim>\<open>for i := range words\<close>, with the slice updated in place at index
  \<open>i\<close> and the flag \<^verbatim>\<open>didReplace\<close> threaded through.
\<close>

function linkLoop :: "nat \<Rightarrow> string list \<Rightarrow> bool \<Rightarrow> string list \<Rightarrow> string \<Rightarrow> string list \<times> bool" where
  "linkLoop i words didReplace validIssues jiraBaseURL =
     (if i < length words then
        (if HasPrefix (words ! i) ''['' then
           linkLoop (i + 1) words didReplace validIssues jiraBaseURL
         else if \<not> isIssue (words ! i) validIssues then
           linkLoop (i + 1) words didReplace validIssues jiraBaseURL
         else
           linkLoop (i + 1) (words[i := linkFor (words ! i) jiraBaseURL]) True
             validIssues jiraBaseURL)
      else (words, didReplace))"
  by pat_completeness auto
termination
  by (relation "measure (\<lambda>(i, words, d, v, u). length words - i)") auto

definition insertLinksIntoComment :: "string \<Rightarrow> string list \<Rightarrow> string \<Rightarrow> string" where
  "insertLinksIntoComment body validIssues jiraBaseURL =
     (case linkLoop 0 (Fields body) False validIssues jiraBaseURL of
        (words, didReplace) \<Rightarrow> if \<not> didReplace then body else Join words '' '')"

subsection \<open>The annotator, as the specification words it\<close>

text \<open>
  A token is rewritten when it does not start with the link-opening marker \<open>[\<close> and
  contains one of the validated identifiers as a substring.
\<close>

definition mustLink :: "string list \<Rightarrow> string \<Rightarrow> bool" where
  "mustLink validIssues w = (\<not> prefix ''['' w \<and> (\<exists>v\<in>set validIssues. sublist v w))"

text \<open>A rewritten token becomes \<open>[<token>](<base-url>/browse/<token>)\<close>; any other is kept.\<close>

definition annotate :: "string list \<Rightarrow> string \<Rightarrow> string \<Rightarrow> string" where
  "annotate validIssues url w =
     (if mustLink validIssues w then ''['' @ w @ '']('' @ url @ ''/browse/'' @ w @ '')'' else w)"



text \<open>A byte below \<open>0x80\<close>: it is a rune of its own and part of no multi-byte encoding.\<close>

definition ascii :: "char \<Rightarrow> bool" where
  "ascii c = ((of_char c :: nat) < 0x80)"

text \<open>No white space rune starts inside \<open>w\<close> when \<open>w\<close> is followed by \<open>s\<close>.\<close>

fun clean :: "string \<Rightarrow> string \<Rightarrow> bool" where
  "clean [] s = True"
| "clean (c # cs) s = (spaceWidth (c # cs @ s) = 0 \<and> clean cs s)"

section \<open>The ticket-identifier pattern\<close>

text \<open>
  \<^verbatim>\<open>issueNameRegex = regexp.MustCompile(`\b[a-zA-Z]+-[0-9]+\b`)\<close>.  The pattern is a
  sequence of pieces: the ASCII word boundary \<^verbatim>\<open>\b\<close>, a literal byte, and a character
  class repeated one or more times, greedily.  Package \<^verbatim>\<open>regexp\<close> returns the match
  that a backtracking search finds first (leftmost-first), which \<open>matchHere\<close> computes;
  the flag \<open>prev\<close> tells whether the byte before the current position is a word
  character.  All bytes of the pattern are ASCII, and the bytes of a multi-byte rune
  are neither in a class nor word characters, so matching bytes is matching runes.
\<close>

datatype piece = WordBoundary | Literal char | ClassPlus "(char \<times> char) list"

definition inRanges :: "(char \<times> char) list \<Rightarrow> char \<Rightarrow> bool" where
  "inRanges rs c =
     list_ex (\<lambda>(lo, hi). (of_char lo :: nat) \<le> of_char c \<and> (of_char c :: nat) \<le> of_char hi) rs"

text \<open>The class \<^verbatim>\<open>\w\<close> of word characters: \<^verbatim>\<open>[0-9A-Za-z_]\<close>.\<close>

definition isWordChar :: "char \<Rightarrow> bool" where
  "isWordChar c =
     inRanges [(CHR ''0'', CHR ''9''), (CHR ''A'', CHR ''Z''), (CHR ''_'', CHR ''_''),
               (CHR ''a'', CHR ''z'')] c"

definition issueNameRegex :: "piece list" where
  "issueNameRegex =
     [WordBoundary,
      ClassPlus [(CHR ''a'', CHR ''z''), (CHR ''A'', CHR ''Z'')],
      Literal CHR ''-'',
      ClassPlus [(CHR ''0'', CHR ''9'')],
      WordBoundary]"

fun startsWord :: "string \<Rightarrow> bool" where
  "startsWord [] = False"
| "startsWord (c # cs) = isWordChar c"

text \<open>
  \<open>matchHere ps prev s\<close> is the length of the preferred match of the pieces \<open>ps\<close> at
  the start of \<open>s\<close>.  A repeated class first tries one more repetition and only then
  the rest of the pattern.
\<close>

fun matchHere :: "piece list \<Rightarrow> bool \<Rightarrow> string \<Rightarrow> nat option" where
  "matchHere [] prev s = Some 0"
| "matchHere (WordBoundary # ps) prev s =
     (if prev \<noteq> startsWord s then matchHere ps prev s else None)"
| "matchHere (Literal c # ps) prev [] = None"
| "matchHere (Literal c # ps) prev (d # ds) =
     (if d = c then map_option Suc (matchHere ps (isWordChar d) ds) else None)"
| "matchHere (ClassPlus rs # ps) prev [] = None"
| "matchHere (ClassPlus rs # ps) prev (d # ds) =
     (if inRanges rs d then
        (case matchHere (ClassPlus rs # ps) (isWordChar d) ds of
           Some n \<Rightarrow> Some (Suc n)
         | None \<Rightarrow> map_option Suc (matchHere ps (isWordChar d) ds))
      else None)"

text \<open>
  \<^verbatim>\<open>doExecute\<close> with a start position: the leftmost match that starts at \<open>pos\<close> or
  later, as the pair of its start and end offsets.  The whole input stays in view, so
  \<^verbatim>\<open>\b\<close> sees the byte before \<open>pos\<close>.
\<close>

function doExecute :: "piece list \<Rightarrow> string \<Rightarrow> nat \<Rightarrow> (nat \<times> nat) option" where
  "doExecute re s pos =
     (if pos \<le> length s then
        (case matchHere re (0 < pos \<and> isWordChar (s ! (pos - 1))) (drop pos s) of
           Some n \<Rightarrow> Some (pos, pos + n)
         | None \<Rightarrow> doExecute re s (pos + 1))
      else None)"
  by pat_completeness auto
termination
  by (relation "measure (\<lambda>(re, s, pos). Suc (length s) - pos)") auto

text \<open>
  The loop of \<^verbatim>\<open>allMatches\<close>: search from \<open>pos\<close>, deliver the match and go on from its
  end.  A match of \<open>issueNameRegex\<close> is never empty, so the branch of Go's loop for
  an empty match (\<^verbatim>\<open>matches[1] == pos\<close>) is never taken; the model ends the loop
  there.  The bound \<^verbatim>\<open>n = len(s) + 1\<close> on the number of matches that
  \<^verbatim>\<open>FindAllString(s, -1)\<close> sets is never reached by non-empty matches.
\<close>

function allMatches :: "piece list \<Rightarrow> string \<Rightarrow> nat \<Rightarrow> (nat \<times> nat) list" where
  "allMatches re s pos =
     (if pos \<le> length s then
        (case doExecute re s pos of
           None \<Rightarrow> []
         | Some (a, b) \<Rightarrow> if b \<le> pos then [] else (a, b) # allMatches re s b)
      else [])"
  by pat_completeness auto
termination
  by (relation "measure (\<lambda>(re, s, pos). Suc (length s) - pos)") auto

text \<open>\<^verbatim>\<open>s[a:b]\<close>, for \<open>a \<le> b \<le> len(s)\<close>.\<close>

definition slice :: "string \<Rightarrow> nat \<times> nat \<Rightarrow> string" where
  "slice s = (\<lambda>(a, b). take (b - a) (drop a s))"

definition FindAllString :: "piece list \<Rightarrow> string \<Rightarrow> string list" where
  "FindAllString re s = map (slice s) (allMatches re s 0)"

subsection \<open>The pattern, as the specification words it\<close>

definition isLetter :: "char \<Rightarrow> bool" where
  "isLetter c = inRanges [(CHR ''a'', CHR ''z''), (CHR ''A'', CHR ''Z'')] c"

definition isDigit :: "char \<Rightarrow> bool" where
  "isDigit c = inRanges [(CHR ''0'', CHR ''9'')] c"

text \<open>One or more letters, a hyphen, one or more digits.\<close>

definition ticketName :: "string \<Rightarrow> bool" where
  "ticketName w =
     (\<exists>ls ds. w = ls @ ''-'' @ ds \<and> ls \<noteq> [] \<and> ds \<noteq> [] \<and> list_all isLetter ls \<and> list_all isDigit ds)"

text \<open>A word character stands at index \<open>i\<close> of \<open>s\<close>.\<close>

definition wordAt :: "string \<Rightarrow> nat \<Rightarrow> bool" where
  "wordAt s i = (i < length s \<and> isWordChar (s ! i))"

text \<open>A word boundary: a word character on exactly one side of position \<open>i\<close>.\<close>

definition boundaryAt :: "string \<Rightarrow> nat \<Rightarrow> bool" where
  "boundaryAt s i = ((0 < i \<and> wordAt s (i - 1)) \<noteq> wordAt s i)"

text \<open>\<open>s[i:j]\<close> is a ticket identifier delimited by word boundaries.\<close>

definition occurrence :: "string \<Rightarrow> nat \<times> nat \<Rightarrow> bool" where
  "occurrence s = (\<lambda>(i, j). i < j \<and> j \<le> length s \<and> ticketName (slice s (i, j))
                     \<and> boundaryAt s i \<and> boundaryAt s j)"

section \<open>Events, remote links and the two clients\<close>

text \<open>
  The fields of \<^verbatim>\<open>github.GenericCommentEvent\<close> that the plugin reads.  \<^verbatim>\<open>Number\<close> is a Go
  \<^verbatim>\<open>int\<close>; it is only printed, never computed with.  \<^verbatim>\<open>CommentID\<close> is a \<^verbatim>\<open>*int\<close>,
  \<open>None\<close> for \<^verbatim>\<open>nil\<close>.  The action is a string type.
\<close>

record User =
  Login :: string

record Repository =
  Owner :: User
  Name :: string
  FullName :: string

record GenericCommentEvent =
  Action :: string
  Body :: string
  IssueTitle :: string
  HTMLURL :: string
  Number :: int
  CommentID :: "int option"
  Repo :: Repository

text \<open>
  Modelled from the spec: the constant \<^verbatim>\<open>github.GenericCommentActionDeleted\<close> is declared
  outside the plugin; it is the action of an event that "denotes deletion".
\<close>

definition GenericCommentActionDeleted :: string where
  "GenericCommentActionDeleted = ''deleted''"

text \<open>The field of \<^verbatim>\<open>github.Issue\<close> that the plugin reads and writes.\<close>

record Issue =
  IssueBody :: string

text \<open>
  \<^verbatim>\<open>jira.RemoteLink\<close> with its object and icon; the plugin sets no other field.  The
  pointers \<^verbatim>\<open>Object\<close> and \<^verbatim>\<open>Icon\<close> are taken to be non-nil in the links the tracker
  returns, as they are in the links the plugin creates.
\<close>

record RemoteLinkIcon =
  Url16x16 :: string
  IconTitle :: string

record RemoteLinkObject =
  URL :: string
  Title :: string
  Icon :: RemoteLinkIcon

record RemoteLink =
  Object :: RemoteLinkObject

text \<open>
  Errors are values.  \<open>Wrap msg err\<close> is \<^verbatim>\<open>fmt.Errorf("msg: %w", err)\<close>.
\<close>

datatype error = NotFound | Failure string | Wrap string error

text \<open>
  Modelled from the spec: \<^verbatim>\<open>jiraclient.IsNotFound\<close> is declared outside the plugin; the
  tracker's lookup fails "with a distinguishable not-found kind".
\<close>

fun IsNotFound :: "error \<Rightarrow> bool" where
  "IsNotFound NotFound = True"
| "IsNotFound (Failure msg) = False"
| "IsNotFound (Wrap msg err) = IsNotFound err"

text \<open>
  The two collaborators are parameters of the plugin.  A client method is a function of
  its arguments and of the state of the remote service, and returns its result with the
  new state; nothing is assumed about it.  \<^verbatim>\<open>jc.GetIssue\<close> returns an issue that the
  plugin discards, so only its error is kept, and likewise for \<^verbatim>\<open>ghc.EditIssue\<close>.
\<close>

record 'j jiraClient =
  JiraGetIssue :: "string \<Rightarrow> 'j \<Rightarrow> error option \<times> 'j"
  GetRemoteLinks :: "string \<Rightarrow> 'j \<Rightarrow> (error + RemoteLink list) \<times> 'j"
  AddRemoteLink :: "string \<Rightarrow> RemoteLink \<Rightarrow> 'j \<Rightarrow> error option \<times> 'j"
  JiraURL :: string

record 'g githubClient =
  EditComment :: "string \<Rightarrow> string \<Rightarrow> int \<Rightarrow> string \<Rightarrow> 'g \<Rightarrow> error option \<times> 'g"
  GetIssue :: "string \<Rightarrow> string \<Rightarrow> int \<Rightarrow> 'g \<Rightarrow> (error + Issue) \<times> 'g"
  EditIssue :: "string \<Rightarrow> string \<Rightarrow> int \<Rightarrow> Issue \<Rightarrow> 'g \<Rightarrow> error option \<times> 'g"

text \<open>Every call made to a client is recorded with its arguments and its result.\<close>

datatype jiraCall =
  CallJiraGetIssue string "error option"
| CallGetRemoteLinks string "error + RemoteLink list"
| CallAddRemoteLink string RemoteLink "error option"

datatype githubCall =
  CallEditComment string string int string "error option"
| CallGetIssue string string int "error + Issue"
| CallEditIssue string string int Issue "error option"

text \<open>An entry of the log: its level and message, the field \<^verbatim>\<open>Issue\<close> and the error.\<close>

datatype logEntry = LogError string "string option" error | LogInfo string

text \<open>
  The state threaded through the plugin: the two remote services, the calls made to
  each, and the log.
\<close>

record ('j, 'g) world =
  jira :: 'j
  jiraCalls :: "jiraCall list"
  github :: 'g
  githubCalls :: "githubCall list"
  logs :: "logEntry list"

definition callJira :: "jiraCall \<Rightarrow> 'j \<Rightarrow> ('j, 'g) world \<Rightarrow> ('j, 'g) world" where
  "callJira c j w = w\<lparr>jira := j, jiraCalls := jiraCalls w @ [c]\<rparr>"

definition callGithub :: "githubCall \<Rightarrow> 'g \<Rightarrow> ('j, 'g) world \<Rightarrow> ('j, 'g) world" where
  "callGithub c g w = w\<lparr>github := g, githubCalls := githubCalls w @ [c]\<rparr>"

definition logEntry :: "logEntry \<Rightarrow> ('j, 'g) world \<Rightarrow> ('j, 'g) world" where
  "logEntry l w = w\<lparr>logs := logs w @ [l]\<rparr>"

subsection \<open>Printing an integer: the verb \<^verbatim>\<open>%d\<close>\<close>

definition digitChar :: "nat \<Rightarrow> char" where
  "digitChar n = char_of (48 + n)"

function natDigits :: "nat \<Rightarrow> string" where
  "natDigits n = (if n < 10 then [digitChar n] else natDigits (n div 10) @ [digitChar (n mod 10)])"
  by pat_completeness auto
termination
  by (relation "measure id") auto

definition Itoa :: "int \<Rightarrow> string" where
  "Itoa n = (if n < 0 then ''-'' @ natDigits (nat (- n)) else natDigits (nat n))"

section \<open>The back-link upserter\<close>

text \<open>
  \<^verbatim>\<open>url := e.HTMLURL; if idx := strings.Index(url, "#"); idx != -1 { url = url[:idx] }\<close>
\<close>

definition canonicalURL :: "string \<Rightarrow> string" where
  "canonicalURL url = (let idx = Index url ''#'' in if idx \<noteq> - 1 then take (nat idx) url else url)"

text \<open>The loop over the fetched links, which returns at the first link with the URL.\<close>

fun alreadyLinked :: "RemoteLink list \<Rightarrow> string \<Rightarrow> bool" where
  "alreadyLinked [] url = False"
| "alreadyLinked (link # links) url =
     (if URL (Object link) = url then True else alreadyLinked links url)"

definition newLink :: "string \<Rightarrow> GenericCommentEvent \<Rightarrow> RemoteLink" where
  "newLink url e =
     \<lparr>Object =
        \<lparr>URL = url,
         Title = FullName (Repo e) @ ''#'' @ Itoa (Number e) @ '': '' @ IssueTitle e,
         Icon = \<lparr>Url16x16 = ''https://github.com/favicon.ico'', IconTitle = ''GitHub''\<rparr>\<rparr>\<rparr>"

definition upsertGitHubLinkToIssue ::
  "string \<Rightarrow> 'j jiraClient \<Rightarrow> GenericCommentEvent \<Rightarrow> ('j, 'g) world \<Rightarrow> error option \<times> ('j, 'g) world"
where
  "upsertGitHubLinkToIssue issueID jc e w =
     (case GetRemoteLinks jc issueID (jira w) of (r, j1) \<Rightarrow>
        let w1 = callJira (CallGetRemoteLinks issueID r) j1 w in
        (case r of
           Inl err \<Rightarrow> (Some (Wrap ''failed to get remote links'' err), w1)
         | Inr links \<Rightarrow>
             let url = canonicalURL (HTMLURL e) in
             if alreadyLinked links url then (None, w1)
             else
               let link = newLink url e in
               (case AddRemoteLink jc issueID link (jira w1) of (r2, j2) \<Rightarrow>
                  let w2 = callJira (CallAddRemoteLink issueID link r2) j2 w1 in
                  (case r2 of
                     Some err \<Rightarrow> (Some (Wrap ''failed to add remote link'' err), w2)
                   | None \<Rightarrow> (None, logEntry (LogInfo ''Created jira link'') w2)))))"

text \<open>
  The canonical URL, as the specification words it: the URL truncated at its first
  fragment marker \<open>#\<close>, if any.
\<close>

definition truncateAtHash :: "string \<Rightarrow> string" where
  "truncateAtHash url = takeWhile (\<lambda>c. c \<noteq> CHR ''#'') url"

text \<open>The calls that a run added to the calls made before it.\<close>

definition newJiraCalls :: "('j, 'g) world \<Rightarrow> ('j, 'g) world \<Rightarrow> jiraCall list" where
  "newJiraCalls w w' = drop (length (jiraCalls w)) (jiraCalls w')"

definition newGithubCalls :: "('j, 'g) world \<Rightarrow> ('j, 'g) world \<Rightarrow> githubCall list" where
  "newGithubCalls w w' = drop (length (githubCalls w)) (githubCalls w')"

definition newLogs :: "('j, 'g) world \<Rightarrow> ('j, 'g) world \<Rightarrow> logEntry list" where
  "newLogs w w' = drop (length (logs w)) (logs w')"

section \<open>Writing the annotated text back\<close>

definition updateComment ::
  "GenericCommentEvent \<Rightarrow> string list \<Rightarrow> string \<Rightarrow> 'g githubClient \<Rightarrow> ('j, 'g) world
     \<Rightarrow> error option \<times> ('j, 'g) world"
where
  "updateComment e validIssues jiraBaseURL ghc w =
     (let withLinks = insertLinksIntoComment (Body e) validIssues jiraBaseURL;
          org = Login (Owner (Repo e)); repo = Name (Repo e)
      in
      if withLinks = Body e then (None, w)
      else
        (case CommentID e of
           Some cid \<Rightarrow>
             (case EditComment ghc org repo cid withLinks (github w) of (r, g1) \<Rightarrow>
                (r, callGithub (CallEditComment org repo cid withLinks r) g1 w))
         | None \<Rightarrow>
             (case GetIssue ghc org repo (Number e) (github w) of (r, g1) \<Rightarrow>
                let w1 = callGithub (CallGetIssue org repo (Number e) r) g1 w in
                (case r of
                   Inl err \<Rightarrow>
                     (Some (Wrap (''failed to get issue '' @ org @ ''/'' @ repo @ ''#'' @ Itoa (Number e)) err),
                      w1)
                 | Inr issue \<Rightarrow>
                     let withLinks' = insertLinksIntoComment (IssueBody issue) validIssues jiraBaseURL in
                     if withLinks' \<noteq> IssueBody issue then
                       (let issue' = issue\<lparr>IssueBody := withLinks'\<rparr> in
                        case EditIssue ghc org repo (Number e) issue' (github w1) of (r2, g2) \<Rightarrow>
                          (r2, callGithub (CallEditIssue org repo (Number e) issue' r2) g2 w1))
                     else (None, w1)))))"

section \<open>The handler\<close>

text \<open>
  \<^verbatim>\<open>referencedIssues\<close> is a \<^verbatim>\<open>sets.String\<close>; it is modelled as the list of its members
  in order of insertion, which \<^verbatim>\<open>Insert\<close> extends only after \<^verbatim>\<open>Has\<close> was false.
  The loop over the candidates looks each one up unless it is already a member.
\<close>

fun validate ::
  "'j jiraClient \<Rightarrow> string list \<Rightarrow> string list \<Rightarrow> ('j, 'g) world \<Rightarrow> string list \<times> ('j, 'g) world"
where
  "validate jc [] referencedIssues w = (referencedIssues, w)"
| "validate jc (match # rest) referencedIssues w =
     (if match \<in> set referencedIssues then validate jc rest referencedIssues w
      else
        (case JiraGetIssue jc match (jira w) of (r, j1) \<Rightarrow>
           let w1 = callJira (CallJiraGetIssue match r) j1 w in
           (case r of
              Some err \<Rightarrow>
                validate jc rest referencedIssues
                  (if \<not> IsNotFound err
                   then logEntry (LogError ''Failed to get issue'' (Some match) err) w1
                   else w1)
            | None \<Rightarrow> validate jc rest (referencedIssues @ [match]) w1)))"

text \<open>
  One goroutine per member of \<^verbatim>\<open>referencedIssues.List()\<close>, the sorted list of the
  members.  The goroutines share nothing but the tracker and the log; the model runs
  them one after the other in the order they are started, which is one of the schedules
  the Go runtime may choose.
\<close>

fun upsertAll ::
  "'j jiraClient \<Rightarrow> string list \<Rightarrow> GenericCommentEvent \<Rightarrow> ('j, 'g) world \<Rightarrow> ('j, 'g) world"
where
  "upsertAll jc [] e w = w"
| "upsertAll jc (issue # issues) e w =
     (case upsertGitHubLinkToIssue issue jc e w of
        (Some err, w1) \<Rightarrow>
          upsertAll jc issues e
            (logEntry (LogError ''Failed to ensure GitHub link on Jira issue'' (Some issue) err) w1)
      | (None, w1) \<Rightarrow> upsertAll jc issues e w1)"

text \<open>
  \<^verbatim>\<open>handle\<close>.  The text is written back by the calling goroutine while the upserts
  run; it touches only the discussion platform, so its calls commute with theirs, and
  the model runs it after them.  \<^verbatim>\<open>UnsortedList()\<close> returns the members in an
  unspecified order; the annotator only asks whether some member is in a word, and the
  model passes the members in order of insertion.
\<close>

definition handle ::
  "'j jiraClient \<Rightarrow> 'g githubClient \<Rightarrow> GenericCommentEvent \<Rightarrow> ('j, 'g) world
     \<Rightarrow> error option \<times> ('j, 'g) world"
where
  "handle jc ghc e w =
     (if Action e = GenericCommentActionDeleted then (None, w)
      else
        let issueCandidateNames =
              FindAllString issueNameRegex (Body e) @ FindAllString issueNameRegex (IssueTitle e)
        in
        if length issueCandidateNames = 0 then (None, w)
        else
          (case validate jc issueCandidateNames [] w of (referencedIssues, w1) \<Rightarrow>
             let w2 = upsertAll jc (sort referencedIssues) e w1 in
             (case updateComment e referencedIssues (JiraURL jc) ghc w2 of
                (Some err, w3) \<Rightarrow>
                  (None, logEntry (LogError ''Failed to insert links into body'' None err) w3)
              | (None, w3) \<Rightarrow> (None, w3))))"

subsection \<open>Reading the recorded calls\<close>

text \<open>The identifiers whose lookup succeeded, in the order of the calls.\<close>

fun confirmedBy :: "jiraCall list \<Rightarrow> string list" where
  "confirmedBy [] = []"
| "confirmedBy (CallJiraGetIssue m None # cs) = m # confirmedBy cs"
| "confirmedBy (c # cs) = confirmedBy cs"

text \<open>The identifiers that were looked up, one entry for each lookup.\<close>

fun lookups :: "jiraCall list \<Rightarrow> string list" where
  "lookups [] = []"
| "lookups (CallJiraGetIssue m r # cs) = m # lookups cs"
| "lookups (c # cs) = lookups cs"

text \<open>
  What the log holds after the lookups: an entry for every lookup that failed with an
  error other than not-found, none for a lookup that failed with not-found.
\<close>

fun failureLogs :: "jiraCall list \<Rightarrow> logEntry list" where
  "failureLogs [] = []"
| "failureLogs (CallJiraGetIssue m (Some err) # cs) =
     (if IsNotFound err then [] else [LogError ''Failed to get issue'' (Some m) err]) @ failureLogs cs"
| "failureLogs (c # cs) = failureLogs cs"


section \<open>Two services to run the plugin against\<close>

text \<open>
  Modelled from the spec: a tracker that knows the issues \<open>known\<close>, reports any other
  identifier as not found, and keeps the remote links of each issue as durable state
  (an association list from issue to links, empty at first); creating a link appends it.
\<close>

definition linksOf :: "(string \<times> RemoteLink list) list \<Rightarrow> string \<Rightarrow> RemoteLink list" where
  "linksOf store issueID = (case map_of store issueID of None \<Rightarrow> [] | Some links \<Rightarrow> links)"

definition tracker :: "string list \<Rightarrow> string \<Rightarrow> (string \<times> RemoteLink list) list jiraClient" where
  "tracker known url =
     \<lparr>JiraGetIssue = (\<lambda>issueID store. (if issueID \<in> set known then None else Some NotFound, store)),
      GetRemoteLinks = (\<lambda>issueID store. (Inr (linksOf store issueID), store)),
      AddRemoteLink = (\<lambda>issueID link store. (None, (issueID, linksOf store issueID @ [link]) # store)),
      JiraURL = url\<rparr>"


text \<open>
  Modelled from the spec: a discussion platform holding the body of one thread and the
  text of one comment; every call succeeds.
\<close>

record thread =
  threadBody :: string
  commentText :: string

definition platform :: "thread githubClient" where
  "platform =
     \<lparr>EditComment = (\<lambda>org repo cid text t. (None, t\<lparr>commentText := text\<rparr>)),
      GetIssue = (\<lambda>org repo number t. (Inr \<lparr>IssueBody = threadBody t\<rparr>, t)),
      EditIssue = (\<lambda>org repo number issue t. (None, t\<lparr>threadBody := IssueBody issue\<rparr>))\<rparr>"

definition startWorld :: "'j \<Rightarrow> 'g \<Rightarrow> ('j, 'g) world" where
  "startWorld j g = \<lparr>jira = j, jiraCalls = [], github = g, githubCalls = [], logs = []\<rparr>"

definition event :: "string \<Rightarrow> string \<Rightarrow> string \<Rightarrow> int option \<Rightarrow> GenericCommentEvent" where
  "event action body title cid =
     \<lparr>Action = action, Body = body, IssueTitle = title,
      HTMLURL = ''https://github.com/org/repo/pull/7#issuecomment-1'', Number = 7,
      CommentID = cid,
      Repo = \<lparr>Owner = \<lparr>Login = ''org''\<rparr>, Name = ''repo'', FullName = ''org/repo''\<rparr>\<rparr>"

section \<open>Properties of the string functions\<close>

lemma Index_ge: "- 1 \<le> Index s sub"
  by (induction s) (auto simp: Let_def)

lemma HasPrefix_prefix: "HasPrefix s pre = prefix pre s"
  by (auto simp: HasPrefix_def prefix_def) (metis append_take_drop_id)

lemma Contains_sublist: "Contains s sub = sublist sub s"
proof (induction s)
  case Nil
  then show ?case by (auto simp: Contains_def)
next
  case (Cons c cs)
  show ?case using Cons Index_ge[of cs sub]
    by (auto simp: Contains_def Let_def HasPrefix_prefix sublist_Cons_right)
qed

lemma spaceRunes_nonempty: "\<forall>enc\<in>set spaceRunes. enc \<noteq> []"
  by (simp add: spaceRunes_def)

lemma spaceRunes_head: "\<forall>enc\<in>set spaceRunes. asciiSpace (hd enc) \<or> \<not> ascii (hd enc)"
  by (simp add: spaceRunes_def asciiSpace_def ascii_def)

lemma spaceRunes_tail: "\<forall>enc\<in>set spaceRunes. \<forall>b\<in>set (tl enc). \<not> ascii b"
  by (simp add: spaceRunes_def ascii_def)

lemma spaceWidth_iff: "spaceWidth s \<noteq> 0 \<longleftrightarrow> (\<exists>enc\<in>set spaceRunes. prefix enc s)"
proof (cases "find (\<lambda>enc. prefix enc s) spaceRunes")
  case None
  then have "spaceWidth s = 0" by (simp add: spaceWidth_def HasPrefix_prefix)
  moreover have "\<not> (\<exists>enc\<in>set spaceRunes. prefix enc s)" using None by (simp add: find_None_iff)
  ultimately show ?thesis by simp
next
  case (Some enc)
  then have e: "enc \<in> set spaceRunes \<and> prefix enc s"
    by (auto simp: find_Some_iff)
  then have "enc \<noteq> []" using spaceRunes_nonempty by blast
  then have "spaceWidth s \<noteq> 0" using Some by (simp add: spaceWidth_def HasPrefix_prefix)
  then show ?thesis using e by blast
qed

lemma spaceWidth_zero_iff: "spaceWidth s = 0 \<longleftrightarrow> (\<forall>enc\<in>set spaceRunes. \<not> prefix enc s)"
  using spaceWidth_iff[of s] by blast

lemma spaceWidth_prefix: "spaceWidth (xs @ ys) = 0 \<Longrightarrow> spaceWidth xs = 0"
  unfolding spaceWidth_zero_iff by (meson prefix_order.trans prefixI)

lemma spaceWidth_ascii: "ascii c \<Longrightarrow> \<not> asciiSpace c \<Longrightarrow> spaceWidth (c # cs) = 0"
  unfolding spaceWidth_zero_iff
proof
  fix enc assume a: "ascii c" "\<not> asciiSpace c" and e: "enc \<in> set spaceRunes"
  show "\<not> prefix enc (c # cs)"
  proof
    assume "prefix enc (c # cs)"
    moreover have "enc \<noteq> []" using e spaceRunes_nonempty by blast
    ultimately have "hd enc = c" by (cases enc) auto
    then show False using a e spaceRunes_head by blast
  qed
qed

lemma spaceWidth_space: "spaceWidth (CHR '' '' # s) \<noteq> 0"
  unfolding spaceWidth_iff by (rule bexI[of _ "'' ''"]) (simp_all add: spaceRunes_def)

lemma spaceWidth_space1: "spaceWidth (CHR '' '' # s) = 1"
  by (simp add: spaceWidth_def spaceRunes_def HasPrefix_def)

text \<open>
  A white space encoding cannot straddle the end of \<open>xs\<close> when the next byte is ASCII:
  its second and third bytes are continuation bytes.
\<close>

lemma spaceWidth_append_ascii:
  assumes "xs \<noteq> []" "spaceWidth xs = 0" "ascii c"
  shows "spaceWidth (xs @ c # ys) = 0"
  unfolding spaceWidth_zero_iff
proof
  fix enc assume e: "enc \<in> set spaceRunes"
  show "\<not> prefix enc (xs @ c # ys)"
  proof
    assume p: "prefix enc (xs @ c # ys)"
    have np: "\<not> prefix enc xs" using assms(2) e by (simp add: spaceWidth_zero_iff)
    from p have "prefix enc xs \<or> (\<exists>us. us \<noteq> [] \<and> prefix us (c # ys) \<and> enc = xs @ us)"
      by (auto simp: prefix_append)
    then obtain us where us: "us \<noteq> []" "prefix us (c # ys)" "enc = xs @ us"
      using np by blast
    then have "c \<in> set us" by (cases us) auto
    then have "c \<in> set (tl enc)" using us(3) assms(1) by (cases xs) auto
    then show False using spaceRunes_tail e assms(3) by blast
  qed
qed

lemma noSpace_append_ascii:
  "noSpace xs \<Longrightarrow> noSpace (c # ys) \<Longrightarrow> ascii c \<Longrightarrow> noSpace (xs @ c # ys)"
proof (induction xs)
  case Nil
  then show ?case by simp
next
  case (Cons a xs)
  have "spaceWidth ((a # xs) @ c # ys) = 0"
    using Cons.prems by (intro spaceWidth_append_ascii) auto
  then show ?case using Cons by simp
qed

lemma noSpace_ascii_Cons: "ascii c \<Longrightarrow> \<not> asciiSpace c \<Longrightarrow> noSpace (c # cs) = noSpace cs"
  by (simp add: spaceWidth_ascii)

lemma clean_Nil: "clean w [] = noSpace w"
  by (induction w) auto

lemma clean_noSpace: "clean w s \<Longrightarrow> noSpace w"
proof (induction w)
  case Nil
  show ?case by simp
next
  case (Cons c cs)
  have "spaceWidth ((c # cs) @ s) = 0" using Cons.prems by simp
  then have "spaceWidth (c # cs) = 0" by (rule spaceWidth_prefix)
  then show ?case using Cons by simp
qed

lemma clean_snoc: "clean cur (c # cs) \<Longrightarrow> spaceWidth (c # cs) = 0 \<Longrightarrow> clean (cur @ [c]) cs"
  by (induction cur) simp_all

lemma noSpace_clean_ascii: "noSpace w \<Longrightarrow> ascii c \<Longrightarrow> clean w (c # s)"
proof (induction w)
  case Nil
  show ?case by simp
next
  case (Cons a w)
  have "spaceWidth ((a # w) @ c # s) = 0"
    using Cons.prems by (intro spaceWidth_append_ascii) simp_all
  then show ?case using Cons by simp
qed

lemma fieldsFrom_nonempty: "w \<in> set (fieldsFrom cur s) \<Longrightarrow> w \<noteq> []"
  by (induction cur s rule: fieldsFrom.induct) (auto split: if_splits)

lemma fieldsFrom_noSpace: "clean cur s \<Longrightarrow> w \<in> set (fieldsFrom cur s) \<Longrightarrow> noSpace w"
proof (induction cur s rule: fieldsFrom.induct)
  case (1 cur)
  then show ?case by (auto simp: clean_Nil split: if_splits)
next
  case (2 cur c cs)
  show ?case
  proof (cases "spaceWidth (c # cs) = 0")
    case True
    then show ?thesis using 2 clean_snoc[of cur c cs] by auto
  next
    case False
    then show ?thesis using 2 clean_noSpace[of cur "c # cs"] by (auto split: if_splits)
  qed
qed

text \<open>Every field is non-empty and free of white space.\<close>

lemma Fields_tokens: "w \<in> set (Fields s) \<Longrightarrow> w \<noteq> [] \<and> noSpace w"
  using fieldsFrom_nonempty[of w "[]" s] fieldsFrom_noSpace[of "[]" s w] by (simp add: Fields_def)

lemma fieldsFrom_append: "clean w s \<Longrightarrow> fieldsFrom cur (w @ s) = fieldsFrom (cur @ w) s"
  by (induction w arbitrary: cur) auto

text \<open>Splitting what was joined with single spaces gives the tokens back.\<close>

lemma Fields_Join: "\<forall>w\<in>set ws. w \<noteq> [] \<and> noSpace w \<Longrightarrow> Fields (Join ws '' '') = ws"
proof (induction ws "'' ''" rule: Join.induct)
  case 1
  then show ?case by (simp add: Fields_def)
next
  case (2 w)
  then have "clean w []" by (simp add: clean_Nil)
  then have "fieldsFrom [] (w @ []) = fieldsFrom ([] @ w) []" by (rule fieldsFrom_append)
  then show ?case using 2 by (simp add: Fields_def)
next
  case (3 w v ws)
  let ?rest = "Join (v # ws) '' ''"
  have "clean w (CHR '' '' # ?rest)" using 3(2) by (simp add: noSpace_clean_ascii ascii_def)
  then have "fieldsFrom [] (w @ CHR '' '' # ?rest) = fieldsFrom ([] @ w) (CHR '' '' # ?rest)"
    by (rule fieldsFrom_append)
  also have "\<dots> = w # fieldsFrom [] ?rest" using 3(2) by (simp add: spaceWidth_space1)
  also have "fieldsFrom [] ?rest = v # ws" using 3 by (simp add: Fields_def)
  finally show ?case by (simp add: Fields_def)
qed

subsection \<open>The fields are the tokens of the text\<close>















section \<open>Properties of the annotator\<close>



lemma isIssue_iff: "isIssue w vs = (\<exists>v\<in>set vs. sublist v w)"
  by (induction vs) (auto simp: Contains_sublist)

lemma annotate_linkFor: "annotate vs url w = (if mustLink vs w then linkFor w url else w)"
  by (simp add: annotate_def linkFor_def)

text \<open>
  The loop invariant: the words before index \<open>i\<close> are final, the others are still the
  original ones, and the flag tells whether a word was rewritten so far.
\<close>

declare linkLoop.simps [simp del]

lemma linkLoop_eq:
  "linkLoop i ws d vs url =
     (take i ws @ map (annotate vs url) (drop i ws), d \<or> (\<exists>w\<in>set (drop i ws). mustLink vs w))"
proof (induction i ws d vs url rule: linkLoop.induct)
  case (1 i ws d vs url)
  show ?case
  proof (cases "i < length ws")
    case False
    then have "linkLoop i ws d vs url = (ws, d)"
      by (subst linkLoop.simps) (simp only: if_False)
    then show ?thesis using False by simp
  next
    case True
    note lt = True
    have unf: "linkLoop i ws d vs url =
        (if HasPrefix (ws ! i) ''['' then linkLoop (i + 1) ws d vs url
         else if \<not> isIssue (ws ! i) vs then linkLoop (i + 1) ws d vs url
         else linkLoop (i + 1) (ws[i := linkFor (ws ! i) url]) True vs url)"
      using lt by (subst linkLoop.simps) (simp only: if_True)
    have dr: "drop i ws = ws ! i # drop (Suc i) ws"
      using lt by (simp add: Cons_nth_drop_Suc)
    have tk: "take (Suc i) ws = take i ws @ [ws ! i]"
      using lt by (simp add: take_Suc_conv_app_nth)
    have ml: "mustLink vs (ws ! i) = (\<not> HasPrefix (ws ! i) ''['' \<and> isIssue (ws ! i) vs)"
      by (simp add: mustLink_def HasPrefix_prefix isIssue_iff)
    let ?keep = "(take (Suc i) ws @ map (annotate vs url) (drop (Suc i) ws),
                     d \<or> (\<exists>w\<in>set (drop (Suc i) ws). mustLink vs w))"
    have keep: "\<not> mustLink vs (ws ! i) \<Longrightarrow> ?keep =
        (take i ws @ map (annotate vs url) (drop i ws), d \<or> (\<exists>w\<in>set (drop i ws). mustLink vs w))"
      by (simp add: dr tk annotate_linkFor)
    show ?thesis
    proof (cases "HasPrefix (ws ! i) ''[''")
      case True
      have "linkLoop i ws d vs url = linkLoop (i + 1) ws d vs url"
        using unf True by (simp only: if_True)
      also have "\<dots> = ?keep"
        using "1.IH"(1)[OF lt True] by (simp only: Suc_eq_plus1)
      also have "\<dots> = (take i ws @ map (annotate vs url) (drop i ws),
                       d \<or> (\<exists>w\<in>set (drop i ws). mustLink vs w))"
        using True by (intro keep) (simp add: ml)
      finally show ?thesis .
    next
      case False
      note nhp = False
      show ?thesis
      proof (cases "isIssue (ws ! i) vs")
        case False
        have "linkLoop i ws d vs url = linkLoop (i + 1) ws d vs url"
          using unf nhp False by (simp only: if_True if_False not_False_eq_True)
        also have "\<dots> = ?keep"
          using "1.IH"(2)[OF lt nhp False] by (simp only: Suc_eq_plus1)
        also have "\<dots> = (take i ws @ map (annotate vs url) (drop i ws),
                         d \<or> (\<exists>w\<in>set (drop i ws). mustLink vs w))"
          using False by (intro keep) (simp add: ml)
        finally show ?thesis .
      next
        case True
        let ?ws' = "ws[i := linkFor (ws ! i) url]"
        have nn: "\<not> \<not> isIssue (ws ! i) vs" using True by simp
        have "linkLoop i ws d vs url = linkLoop (i + 1) ?ws' True vs url"
          using unf nhp True by (simp only: if_True if_False not_True_eq_False)
        also have "\<dots> = (take (Suc i) ?ws' @ map (annotate vs url) (drop (Suc i) ?ws'),
                       True \<or> (\<exists>w\<in>set (drop (Suc i) ?ws'). mustLink vs w))"
          using "1.IH"(3)[OF lt nhp nn] by (simp only: Suc_eq_plus1)
        also have "\<dots> = (take i ws @ map (annotate vs url) (drop i ws),
                         d \<or> (\<exists>w\<in>set (drop i ws). mustLink vs w))"
          using True nhp lt by (simp add: dr tk annotate_linkFor take_Suc_conv_app_nth ml)
        finally show ?thesis .
      qed
    qed
  qed
qed

lemma insertLinks_eq:
  "insertLinksIntoComment body vs url =
     (if \<exists>w\<in>set (Fields body). mustLink vs w
      then Join (map (annotate vs url) (Fields body)) '' ''
      else body)"
  by (simp add: insertLinksIntoComment_def linkLoop_eq)

lemma noSpace_lit: "ascii c \<Longrightarrow> \<not> asciiSpace c \<Longrightarrow> noSpace cs \<Longrightarrow> noSpace (c # cs)"
  by (simp add: spaceWidth_ascii)

lemma noSpace_linkFor:
  assumes w: "noSpace w" and u: "noSpace url"
  shows "noSpace (linkFor w url)"
proof -
  have a: "ascii CHR '')''" "ascii CHR ''/''" "ascii CHR '']''" "ascii CHR ''[''" "ascii CHR ''(''"
    "ascii CHR ''b''" "ascii CHR ''r''" "ascii CHR ''o''" "ascii CHR ''w''" "ascii CHR ''s''" "ascii CHR ''e''"
    by (simp_all add: ascii_def)
  have b: "\<not> asciiSpace CHR '')''" "\<not> asciiSpace CHR ''/''" "\<not> asciiSpace CHR '']''"
    "\<not> asciiSpace CHR ''[''" "\<not> asciiSpace CHR ''(''"
    "\<not> asciiSpace CHR ''b''" "\<not> asciiSpace CHR ''r''" "\<not> asciiSpace CHR ''o''"
    "\<not> asciiSpace CHR ''w''" "\<not> asciiSpace CHR ''s''" "\<not> asciiSpace CHR ''e''"
    by (simp_all add: asciiSpace_def)
  have 0: "noSpace '')''"
    by (rule noSpace_lit) (simp_all only: a b noSpace.simps not_False_eq_True)
  have 1: "noSpace (w @ '')'')"
    using w 0 a(1) by (rule noSpace_append_ascii)
  have 2: "noSpace (''/browse/'' @ w @ '')'')"
    unfolding append.simps
    by (intro noSpace_lit a b 1)
  have 3: "noSpace (url @ ''/browse/'' @ w @ '')'')"
    using u 2 a(2) unfolding append.simps by (rule noSpace_append_ascii)
  have 4: "noSpace (''('' @ url @ ''/browse/'' @ w @ '')'')"
    unfolding append.simps by (intro noSpace_lit a b 3[unfolded append.simps])
  have 5: "noSpace ('']('' @ url @ ''/browse/'' @ w @ '')'')"
    unfolding append.simps by (intro noSpace_lit a b 4[unfolded append.simps])
  have 6: "noSpace (w @ '']('' @ url @ ''/browse/'' @ w @ '')'')"
    using w 5 a(3) unfolding append.simps by (rule noSpace_append_ascii)
  have 7: "noSpace (''['' @ w @ '']('' @ url @ ''/browse/'' @ w @ '')'')"
    unfolding append.simps by (intro noSpace_lit a b 6[unfolded append.simps])
  show ?thesis unfolding linkFor_def by (rule 7)
qed

lemma linkFor_nonempty: "linkFor w url \<noteq> []"
  by (simp add: linkFor_def)

lemma not_mustLink_annotate: "\<not> mustLink vs (annotate vs url w)"
  by (auto simp: annotate_def mustLink_def)



text \<open>
  Claim C3, as the code has it.  The annotator is not idempotent for every base URL: a
  base URL with white space in it splits a rewritten token into several tokens, and the
  one holding the identifier after \<open>/browse/\<close> is rewritten again.
\<close>

theorem insertLinksIntoComment_not_idempotent:
  "insertLinksIntoComment (insertLinksIntoComment ''ABC-1'' [''ABC-1''] ''a b'') [''ABC-1''] ''a b''
     = ''[ABC-1](a [b/browse/ABC-1)](a b/browse/b/browse/ABC-1))''
   \<and> insertLinksIntoComment ''ABC-1'' [''ABC-1''] ''a b'' = ''[ABC-1](a b/browse/ABC-1)''
   \<and> insertLinksIntoComment (insertLinksIntoComment ''ABC-1'' [''ABC-1''] ''a b'') [''ABC-1''] ''a b''
     \<noteq> insertLinksIntoComment ''ABC-1'' [''ABC-1''] ''a b''"
  by code_simp

text \<open>
  Claim C3, amended.  For every text, list of validated identifiers and base URL that
  holds no white space, applying the annotator to its own output (same identifiers, same
  base URL) returns that output unchanged: every rewritten token starts with \<open>[\<close> and
  is skipped, every other token was already left alone.
\<close>

theorem insertLinksIntoComment_idempotent:
  assumes "noSpace jiraBaseURL"
  shows "insertLinksIntoComment (insertLinksIntoComment body validIssues jiraBaseURL)
           validIssues jiraBaseURL
         = insertLinksIntoComment body validIssues jiraBaseURL"
proof (cases "\<exists>w\<in>set (Fields body). mustLink validIssues w")
  case False
  then show ?thesis by (simp add: insertLinks_eq)
next
  case True
  let ?ws = "map (annotate validIssues jiraBaseURL) (Fields body)"
  have out: "insertLinksIntoComment body validIssues jiraBaseURL = Join ?ws '' ''"
    using True by (simp add: insertLinks_eq)
  have "\<forall>w\<in>set ?ws. w \<noteq> [] \<and> noSpace w"
    using Fields_tokens[of _ body] assms by (auto simp: annotate_linkFor noSpace_linkFor linkFor_nonempty)
  then have "Fields (Join ?ws '' '') = ?ws" by (rule Fields_Join)
  then have "insertLinksIntoComment (Join ?ws '' '') validIssues jiraBaseURL = Join ?ws '' ''"
    by (simp add: insertLinks_eq[of "Join ?ws '' ''"] not_mustLink_annotate)
  then show ?thesis by (simp add: out)
qed

theorem insertLinksIntoComment_idempotent_witness:
  "noSpace ''https://issues.example.com''
   \<and> insertLinksIntoComment
        (insertLinksIntoComment ''Fixes  ABC-123'' [''ABC-123''] ''https://issues.example.com'')
        [''ABC-123''] ''https://issues.example.com''
     = ''Fixes [ABC-123](https://issues.example.com/browse/ABC-123)''"
proof -
  have n: "noSpace ''https://issues.example.com''" by code_simp
  have o: "insertLinksIntoComment ''Fixes  ABC-123'' [''ABC-123''] ''https://issues.example.com''
           = ''Fixes [ABC-123](https://issues.example.com/browse/ABC-123)''" by code_simp
  show ?thesis
    using insertLinksIntoComment_idempotent[OF n, of "''Fixes  ABC-123''" "[''ABC-123'']"] n
    by (simp only: o simp_thms)
qed

section \<open>Properties of the back-link upserter\<close>

declare natDigits.simps [simp del]

lemma Index_hash:
  "Index url ''#'' = (if CHR ''#'' \<in> set url then int (length (takeWhile (\<lambda>c. c \<noteq> CHR ''#'') url)) else - 1)"
  by (induction url) (auto simp: HasPrefix_def Let_def)

lemma truncateAtHash_unchanged: "CHR ''#'' \<notin> set url \<Longrightarrow> truncateAtHash url = url"
  unfolding truncateAtHash_def by (induction url) auto

lemma canonicalURL_truncate: "canonicalURL url = truncateAtHash url"
proof (cases "CHR ''#'' \<in> set url")
  case True
  then show ?thesis
    by (simp add: canonicalURL_def truncateAtHash_def Index_hash Let_def takeWhile_eq_take[symmetric])
next
  case False
  then have "canonicalURL url = url" by (simp add: canonicalURL_def Index_hash Let_def)
  then show ?thesis using False by (simp add: truncateAtHash_unchanged)
qed



lemma alreadyLinked_iff: "alreadyLinked links url = (\<exists>l\<in>set links. URL (Object l) = url)"
  by (induction links) auto

lemma jiraCalls_callJira [simp]: "jiraCalls (callJira c j w) = jiraCalls w @ [c]"
  by (simp add: callJira_def)

lemma jira_callJira [simp]: "jira (callJira c j w) = j"
  by (simp add: callJira_def)

lemma github_callJira [simp]: "github (callJira c j w) = github w" "githubCalls (callJira c j w) = githubCalls w"
  "logs (callJira c j w) = logs w"
  by (simp_all add: callJira_def)

lemma callGithub_simps [simp]:
  "githubCalls (callGithub c g w) = githubCalls w @ [c]" "github (callGithub c g w) = g"
  "jira (callGithub c g w) = jira w" "jiraCalls (callGithub c g w) = jiraCalls w"
  "logs (callGithub c g w) = logs w"
  by (simp_all add: callGithub_def)

lemma logEntry_simps [simp]:
  "logs (logEntry l w) = logs w @ [l]" "jira (logEntry l w) = jira w"
  "jiraCalls (logEntry l w) = jiraCalls w" "github (logEntry l w) = github w"
  "githubCalls (logEntry l w) = githubCalls w"
  by (simp_all add: logEntry_def)


lemma upsert_linked:
  assumes "GetRemoteLinks jc issueID (jira w) = (Inr links, j1)"
    and "\<exists>l\<in>set links. URL (Object l) = truncateAtHash (HTMLURL e)"
  shows "upsertGitHubLinkToIssue issueID jc e w =
           (None, callJira (CallGetRemoteLinks issueID (Inr links)) j1 w)"
  using assms by (simp add: upsertGitHubLinkToIssue_def alreadyLinked_iff canonicalURL_truncate)

lemma upsert_creates:
  assumes "GetRemoteLinks jc issueID (jira w) = (Inr links, j1)"
    and "\<not> (\<exists>l\<in>set links. URL (Object l) = truncateAtHash (HTMLURL e))"
    and "AddRemoteLink jc issueID (newLink (truncateAtHash (HTMLURL e)) e) j1 = (r2, j2)"
  shows "upsertGitHubLinkToIssue issueID jc e w =
           (case r2 of
              Some err \<Rightarrow> (Some (Wrap ''failed to add remote link'' err),
                 callJira (CallAddRemoteLink issueID (newLink (truncateAtHash (HTMLURL e)) e) r2) j2
                   (callJira (CallGetRemoteLinks issueID (Inr links)) j1 w))
            | None \<Rightarrow> (None, logEntry (LogInfo ''Created jira link'')
                 (callJira (CallAddRemoteLink issueID (newLink (truncateAtHash (HTMLURL e)) e) r2) j2
                   (callJira (CallGetRemoteLinks issueID (Inr links)) j1 w))))"
  using assms by (simp add: upsertGitHubLinkToIssue_def alreadyLinked_iff canonicalURL_truncate Let_def)


lemma newJiraCalls_append: "jiraCalls w' = jiraCalls w @ new \<Longrightarrow> newJiraCalls w w' = new"
  by (simp add: newJiraCalls_def)

lemma newLink_simps:
  "URL (Object (newLink url e)) = url"
  "Title (Object (newLink url e)) = FullName (Repo e) @ ''#'' @ Itoa (Number e) @ '': '' @ IssueTitle e"
  "Icon (Object (newLink url e)) = \<lparr>Url16x16 = ''https://github.com/favicon.ico'', IconTitle = ''GitHub''\<rparr>"
  by (simp_all add: newLink_def)




lemma tracker_simps:
  "GetRemoteLinks (tracker known url) issueID store = (Inr (linksOf store issueID), store)"
  "AddRemoteLink (tracker known url) issueID link store = (None, (issueID, linksOf store issueID @ [link]) # store)"
  "JiraGetIssue (tracker known url) issueID store = (if issueID \<in> set known then None else Some NotFound, store)"
  "JiraURL (tracker known url) = url"
  by (simp_all add: tracker_def)

lemma linksOf_Cons: "linksOf ((k, v) # store) k = v"
  by (simp add: linksOf_def)

text \<open>
  Claim C1.  Whenever a remote link fetched for the issue has the event's URL truncated
  at its first \<open>#\<close> as its target, the upserter returns without calling
  \<^verbatim>\<open>AddRemoteLink\<close>: the fetch is its only call.  On a tracker that stores the links it
  is given, a second run after a first one calls only \<^verbatim>\<open>GetRemoteLinks\<close>, leaves the
  store as it is, and the issue has exactly one link with the canonical URL (as many as
  before the first run, had it one already).
\<close>

theorem upsert_idempotent:
  "(GetRemoteLinks jc issueID (jira w) = (Inr links, j1)
      \<and> (\<exists>l\<in>set links. URL (Object l) = truncateAtHash (HTMLURL e))
    \<longrightarrow> upsertGitHubLinkToIssue issueID jc e w
          = (None, callJira (CallGetRemoteLinks issueID (Inr links)) j1 w))
   \<and> (let t = tracker known url;
           canonical = (\<lambda>l. URL (Object l) = truncateAtHash (HTMLURL e));
           w1 = snd (upsertGitHubLinkToIssue issueID t e w0);
           w2 = snd (upsertGitHubLinkToIssue issueID t e w1)
       in fst (upsertGitHubLinkToIssue issueID t e w0) = None
          \<and> fst (upsertGitHubLinkToIssue issueID t e w1) = None
          \<and> newJiraCalls w1 w2 = [CallGetRemoteLinks issueID (Inr (linksOf (jira w1) issueID))]
          \<and> jira w2 = jira w1
          \<and> length (filter canonical (linksOf (jira w2) issueID))
              = max 1 (length (filter canonical (linksOf (jira w0) issueID))))"
proof -
  let ?t = "tracker known url"
  let ?u = "truncateAtHash (HTMLURL e)"
  let ?can = "\<lambda>l. URL (Object l) = ?u"
  let ?L = "newLink ?u e"
  let ?links0 = "linksOf (jira w0) issueID"
  let ?w1 = "snd (upsertGitHubLinkToIssue issueID ?t e w0)"
  let ?w2 = "snd (upsertGitHubLinkToIssue issueID ?t e ?w1)"
  have a: "GetRemoteLinks jc issueID (jira w) = (Inr links, j1)
      \<and> (\<exists>l\<in>set links. URL (Object l) = ?u)
    \<longrightarrow> upsertGitHubLinkToIssue issueID jc e w
          = (None, callJira (CallGetRemoteLinks issueID (Inr links)) j1 w)"
    using upsert_linked[of jc issueID w links j1 e] by blast
  have linked: "\<And>w. \<exists>l\<in>set (linksOf (jira w) issueID). ?can l \<Longrightarrow>
      upsertGitHubLinkToIssue issueID ?t e w
        = (None, callJira (CallGetRemoteLinks issueID (Inr (linksOf (jira w) issueID))) (jira w) w)"
    by (rule upsert_linked) (simp_all add: tracker_simps)
  have second: "\<exists>l\<in>set (linksOf (jira ?w1) issueID). ?can l \<Longrightarrow>
      fst (upsertGitHubLinkToIssue issueID ?t e ?w1) = None
      \<and> newJiraCalls ?w1 ?w2 = [CallGetRemoteLinks issueID (Inr (linksOf (jira ?w1) issueID))]
      \<and> jira ?w2 = jira ?w1"
    using linked[of ?w1] by (simp add: newJiraCalls_def)
  have b: "fst (upsertGitHubLinkToIssue issueID ?t e w0) = None
          \<and> fst (upsertGitHubLinkToIssue issueID ?t e ?w1) = None
          \<and> newJiraCalls ?w1 ?w2 = [CallGetRemoteLinks issueID (Inr (linksOf (jira ?w1) issueID))]
          \<and> jira ?w2 = jira ?w1
          \<and> length (filter ?can (linksOf (jira ?w2) issueID)) = max 1 (length (filter ?can ?links0))"
  proof (cases "\<exists>l\<in>set ?links0. ?can l")
    case True
    have first: "upsertGitHubLinkToIssue issueID ?t e w0
        = (None, callJira (CallGetRemoteLinks issueID (Inr ?links0)) (jira w0) w0)"
      using linked[OF True] .
    then have j1: "jira ?w1 = jira w0" by simp
    have "filter ?can ?links0 \<noteq> []" using True by (simp add: filter_empty_conv)
    then have "1 \<le> length (filter ?can ?links0)" by (cases "filter ?can ?links0") simp_all
    then show ?thesis using second True first j1 by (simp add: max_def)
  next
    case False
    have first: "upsertGitHubLinkToIssue issueID ?t e w0
        = (None, logEntry (LogInfo ''Created jira link'')
             (callJira (CallAddRemoteLink issueID ?L None) ((issueID, ?links0 @ [?L]) # jira w0)
               (callJira (CallGetRemoteLinks issueID (Inr ?links0)) (jira w0) w0)))"
      using upsert_creates[of ?t issueID w0 ?links0 "jira w0" e None "(issueID, ?links0 @ [?L]) # jira w0"] False
      by (simp add: tracker_simps)
    then have j1: "jira ?w1 = (issueID, ?links0 @ [?L]) # jira w0" by simp
    then have l1: "linksOf (jira ?w1) issueID = ?links0 @ [?L]" by (simp add: linksOf_Cons)
    have c: "?can ?L" by (simp add: newLink_simps)
    then have ex: "\<exists>l\<in>set (linksOf (jira ?w1) issueID). ?can l" unfolding l1 by simp
    have "filter ?can ?links0 = []" using False by (simp add: filter_empty_conv)
    then have "length (filter ?can (?links0 @ [?L])) = 1" using c by simp
    then show ?thesis using second[OF ex] first l1 False by (simp add: filter_empty_conv)
  qed
  show ?thesis unfolding Let_def by (rule conjI[OF a b])
qed

lemma example_canonical:
  "truncateAtHash (HTMLURL (event ''created'' ''see ABC-1'' ''Fix ABC-1'' (Some 5))) = ''https://github.com/org/repo/pull/7''"
  by (simp add: truncateAtHash_def event_def)

lemma example_fetch:
  "GetRemoteLinks (tracker [''ABC-1''] ''https://issues.example.com'') ''ABC-1'' (jira (startWorld [(''ABC-1'', [(newLink ''https://github.com/org/repo/pull/7'' (event ''created'' ''see ABC-1'' ''Fix ABC-1'' (Some 5)))])] ()))
     = (Inr [(newLink ''https://github.com/org/repo/pull/7'' (event ''created'' ''see ABC-1'' ''Fix ABC-1'' (Some 5)))], [(''ABC-1'', [(newLink ''https://github.com/org/repo/pull/7'' (event ''created'' ''see ABC-1'' ''Fix ABC-1'' (Some 5)))])])"
  by code_simp

lemma example_linked:
  "\<exists>l\<in>set [(newLink ''https://github.com/org/repo/pull/7'' (event ''created'' ''see ABC-1'' ''Fix ABC-1'' (Some 5)))]. URL (Object l) = truncateAtHash (HTMLURL (event ''created'' ''see ABC-1'' ''Fix ABC-1'' (Some 5)))"
  by (simp add: example_canonical newLink_simps)

lemma example_empty:
  "linksOf (jira (startWorld [] () :: ((string \<times> RemoteLink list) list, unit) world)) ''ABC-1'' = []"
  by (simp add: startWorld_def linksOf_def)

theorem upsert_idempotent_witness:
  "upsertGitHubLinkToIssue ''ABC-1'' (tracker [''ABC-1''] ''https://issues.example.com'') (event ''created'' ''see ABC-1'' ''Fix ABC-1'' (Some 5)) (startWorld [(''ABC-1'', [(newLink ''https://github.com/org/repo/pull/7'' (event ''created'' ''see ABC-1'' ''Fix ABC-1'' (Some 5)))])] ())
     = (None, callJira (CallGetRemoteLinks ''ABC-1'' (Inr [(newLink ''https://github.com/org/repo/pull/7'' (event ''created'' ''see ABC-1'' ''Fix ABC-1'' (Some 5)))])) [(''ABC-1'', [(newLink ''https://github.com/org/repo/pull/7'' (event ''created'' ''see ABC-1'' ''Fix ABC-1'' (Some 5)))])] (startWorld [(''ABC-1'', [(newLink ''https://github.com/org/repo/pull/7'' (event ''created'' ''see ABC-1'' ''Fix ABC-1'' (Some 5)))])] ()))
   \<and> length (filter (\<lambda>l. URL (Object l) = ''https://github.com/org/repo/pull/7'')
        (linksOf
           (jira (snd (upsertGitHubLinkToIssue ''ABC-1'' (tracker [''ABC-1''] ''https://issues.example.com'') (event ''created'' ''see ABC-1'' ''Fix ABC-1'' (Some 5))
                    (snd (upsertGitHubLinkToIssue ''ABC-1'' (tracker [''ABC-1''] ''https://issues.example.com'') (event ''created'' ''see ABC-1'' ''Fix ABC-1'' (Some 5))
                            (startWorld [] () :: ((string \<times> RemoteLink list) list, unit) world))))))
           ''ABC-1'')) = 1"
proof -
  note t = upsert_idempotent[where jc = "(tracker [''ABC-1''] ''https://issues.example.com'')" and issueID = "''ABC-1''" and w = "(startWorld [(''ABC-1'', [(newLink ''https://github.com/org/repo/pull/7'' (event ''created'' ''see ABC-1'' ''Fix ABC-1'' (Some 5)))])] ())"
      and links = "[(newLink ''https://github.com/org/repo/pull/7'' (event ''created'' ''see ABC-1'' ''Fix ABC-1'' (Some 5)))]" and ?j1.0 = "[(''ABC-1'', [(newLink ''https://github.com/org/repo/pull/7'' (event ''created'' ''see ABC-1'' ''Fix ABC-1'' (Some 5)))])]" and e = "(event ''created'' ''see ABC-1'' ''Fix ABC-1'' (Some 5))"
      and known = "[''ABC-1'']" and url = "''https://issues.example.com''"
      and ?w0.0 = "startWorld [] () :: ((string \<times> RemoteLink list) list, unit) world"]
  from t example_fetch example_linked
  have 1: "upsertGitHubLinkToIssue ''ABC-1'' (tracker [''ABC-1''] ''https://issues.example.com'') (event ''created'' ''see ABC-1'' ''Fix ABC-1'' (Some 5)) (startWorld [(''ABC-1'', [(newLink ''https://github.com/org/repo/pull/7'' (event ''created'' ''see ABC-1'' ''Fix ABC-1'' (Some 5)))])] ())
     = (None, callJira (CallGetRemoteLinks ''ABC-1'' (Inr [(newLink ''https://github.com/org/repo/pull/7'' (event ''created'' ''see ABC-1'' ''Fix ABC-1'' (Some 5)))])) [(''ABC-1'', [(newLink ''https://github.com/org/repo/pull/7'' (event ''created'' ''see ABC-1'' ''Fix ABC-1'' (Some 5)))])] (startWorld [(''ABC-1'', [(newLink ''https://github.com/org/repo/pull/7'' (event ''created'' ''see ABC-1'' ''Fix ABC-1'' (Some 5)))])] ()))"
    by blast
  from t have 2: "length (filter (\<lambda>l. URL (Object l) = truncateAtHash (HTMLURL (event ''created'' ''see ABC-1'' ''Fix ABC-1'' (Some 5))))
        (linksOf
           (jira (snd (upsertGitHubLinkToIssue ''ABC-1'' (tracker [''ABC-1''] ''https://issues.example.com'') (event ''created'' ''see ABC-1'' ''Fix ABC-1'' (Some 5))
                    (snd (upsertGitHubLinkToIssue ''ABC-1'' (tracker [''ABC-1''] ''https://issues.example.com'') (event ''created'' ''see ABC-1'' ''Fix ABC-1'' (Some 5))
                            (startWorld [] () :: ((string \<times> RemoteLink list) list, unit) world))))))
           ''ABC-1''))
      = max 1 (length (filter (\<lambda>l. URL (Object l) = truncateAtHash (HTMLURL (event ''created'' ''see ABC-1'' ''Fix ABC-1'' (Some 5))))
                 (linksOf (jira (startWorld [] () :: ((string \<times> RemoteLink list) list, unit) world)) ''ABC-1'')))"
    unfolding Let_def by blast
  show ?thesis using 1 2 unfolding example_canonical example_empty by simp
qed

section \<open>Properties of the handler\<close>

text \<open>
  Claim C9.  For every event whose action denotes deletion, the handler returns at once:
  it returns no error and the state is the one it was given, so no call was made to the
  tracker or to the discussion platform and neither service changed.
\<close>

theorem handle_deleted:
  assumes "Action e = GenericCommentActionDeleted"
  shows "handle jc ghc e w = (None, w)"
  using assms by (simp add: handle_def)

theorem handle_deleted_witness:
  "Action (event ''deleted'' ''see ABC-1'' ''Fix ABC-1'' (Some 5)) = GenericCommentActionDeleted
   \<and> handle (tracker [''ABC-1''] ''https://issues.example.com'') platform
        (event ''deleted'' ''see ABC-1'' ''Fix ABC-1'' (Some 5))
        (startWorld [] \<lparr>threadBody = ''see ABC-1'', commentText = ''see ABC-1''\<rparr>)
     = (None, startWorld [] \<lparr>threadBody = ''see ABC-1'', commentText = ''see ABC-1''\<rparr>)"
proof -
  have a: "Action (event ''deleted'' ''see ABC-1'' ''Fix ABC-1'' (Some 5)) = GenericCommentActionDeleted"
    by (simp add: event_def GenericCommentActionDeleted_def)
  show ?thesis using handle_deleted[OF a] a by simp
qed

section \<open>Properties of writing the text back\<close>

text \<open>
  Claim C7.  When the annotated event body is the body itself, nothing is called.  When
  it differs and the event carries a comment identifier, the new text is written with
  \<^verbatim>\<open>EditComment\<close>, whose result is returned.  When it differs and there is no comment
  identifier, the issue is fetched with \<^verbatim>\<open>GetIssue\<close>; if the fetch fails its error is
  returned and nothing is written; otherwise the annotator runs on the fetched body, and
  only if its result differs from the fetched body is the issue, with that result as
  its body, written with \<^verbatim>\<open>EditIssue\<close>; if it does not differ, nothing is written.
\<close>

theorem updateComment_writes:
  "(insertLinksIntoComment (Body e) validIssues jiraBaseURL = Body e
      \<longrightarrow> updateComment e validIssues jiraBaseURL ghc w = (None, w))
   \<and> (insertLinksIntoComment (Body e) validIssues jiraBaseURL \<noteq> Body e
      \<and> CommentID e = Some cid
      \<and> EditComment ghc (Login (Owner (Repo e))) (Name (Repo e)) cid
            (insertLinksIntoComment (Body e) validIssues jiraBaseURL) (github w) = (r, g1)
      \<longrightarrow> updateComment e validIssues jiraBaseURL ghc w
            = (r, callGithub (CallEditComment (Login (Owner (Repo e))) (Name (Repo e)) cid
                                (insertLinksIntoComment (Body e) validIssues jiraBaseURL) r) g1 w))
   \<and> (insertLinksIntoComment (Body e) validIssues jiraBaseURL \<noteq> Body e
      \<and> CommentID e = None
      \<and> GetIssue ghc (Login (Owner (Repo e))) (Name (Repo e)) (Number e) (github w) = (Inl err, g1)
      \<longrightarrow> fst (updateComment e validIssues jiraBaseURL ghc w) \<noteq> None
          \<and> snd (updateComment e validIssues jiraBaseURL ghc w)
            = callGithub (CallGetIssue (Login (Owner (Repo e))) (Name (Repo e)) (Number e) (Inl err)) g1 w)
   \<and> (insertLinksIntoComment (Body e) validIssues jiraBaseURL \<noteq> Body e
      \<and> CommentID e = None
      \<and> GetIssue ghc (Login (Owner (Repo e))) (Name (Repo e)) (Number e) (github w) = (Inr issue, g1)
      \<and> insertLinksIntoComment (IssueBody issue) validIssues jiraBaseURL = IssueBody issue
      \<longrightarrow> updateComment e validIssues jiraBaseURL ghc w
            = (None, callGithub (CallGetIssue (Login (Owner (Repo e))) (Name (Repo e)) (Number e) (Inr issue)) g1 w))
   \<and> (insertLinksIntoComment (Body e) validIssues jiraBaseURL \<noteq> Body e
      \<and> CommentID e = None
      \<and> GetIssue ghc (Login (Owner (Repo e))) (Name (Repo e)) (Number e) (github w) = (Inr issue, g1)
      \<and> insertLinksIntoComment (IssueBody issue) validIssues jiraBaseURL \<noteq> IssueBody issue
      \<and> EditIssue ghc (Login (Owner (Repo e))) (Name (Repo e)) (Number e)
            (issue\<lparr>IssueBody := insertLinksIntoComment (IssueBody issue) validIssues jiraBaseURL\<rparr>) g1
          = (r2, g2)
      \<longrightarrow> updateComment e validIssues jiraBaseURL ghc w
            = (r2, callGithub (CallEditIssue (Login (Owner (Repo e))) (Name (Repo e)) (Number e)
                     (issue\<lparr>IssueBody := insertLinksIntoComment (IssueBody issue) validIssues jiraBaseURL\<rparr>) r2) g2
                   (callGithub (CallGetIssue (Login (Owner (Repo e))) (Name (Repo e)) (Number e) (Inr issue)) g1 w)))"
  by (simp add: updateComment_def Let_def)

lemma example_body:
  "insertLinksIntoComment (Body (event ''created'' ''see ABC-1'' ''Fix ABC-1'' None)) [''ABC-1'']
      ''https://issues.example.com'' = ''see [ABC-1](https://issues.example.com/browse/ABC-1)''"
  by code_simp

lemma example_thread:
  "insertLinksIntoComment ''Fix  ABC-1 now'' [''ABC-1''] ''https://issues.example.com''
     = ''Fix [ABC-1](https://issues.example.com/browse/ABC-1) now''"
  by code_simp

theorem updateComment_writes_witness:
  "updateComment (event ''created'' ''see ABC-1'' ''Fix ABC-1'' None) [''ABC-1'']
       ''https://issues.example.com'' platform
       (startWorld () \<lparr>threadBody = ''Fix  ABC-1 now'', commentText = ''''\<rparr>)
     = (None,
        callGithub (CallEditIssue ''org'' ''repo'' 7
                      \<lparr>IssueBody = ''Fix [ABC-1](https://issues.example.com/browse/ABC-1) now''\<rparr> None)
          \<lparr>threadBody = ''Fix [ABC-1](https://issues.example.com/browse/ABC-1) now'', commentText = ''''\<rparr>
          (callGithub (CallGetIssue ''org'' ''repo'' 7 (Inr \<lparr>IssueBody = ''Fix  ABC-1 now''\<rparr>))
             \<lparr>threadBody = ''Fix  ABC-1 now'', commentText = ''''\<rparr>
             (startWorld () \<lparr>threadBody = ''Fix  ABC-1 now'', commentText = ''''\<rparr>)))"
proof -
  let ?e = "event ''created'' ''see ABC-1'' ''Fix ABC-1'' None"
  let ?t = "\<lparr>threadBody = ''Fix  ABC-1 now'', commentText = ''''\<rparr>"
  let ?w = "startWorld () ?t :: (unit, thread) world"
  let ?i = "\<lparr>IssueBody = ''Fix  ABC-1 now''\<rparr>"
  have ev: "Login (Owner (Repo ?e)) = ''org''" "Name (Repo ?e) = ''repo''" "Number ?e = 7"
    "CommentID ?e = None" "Body ?e = ''see ABC-1''"
    by (simp_all add: event_def)
  have g: "github ?w = ?t" by (simp add: startWorld_def)
  have p: "GetIssue platform ''org'' ''repo'' 7 ?t = (Inr ?i, ?t)"
    "EditIssue platform ''org'' ''repo'' 7
        \<lparr>IssueBody = ''Fix [ABC-1](https://issues.example.com/browse/ABC-1) now''\<rparr> ?t
      = (None, \<lparr>threadBody = ''Fix [ABC-1](https://issues.example.com/browse/ABC-1) now'', commentText = ''''\<rparr>)"
    by (simp_all add: platform_def)
  note t = updateComment_writes[where e = ?e and validIssues = "[''ABC-1'']"
      and jiraBaseURL = "''https://issues.example.com''" and ghc = platform and w = ?w
      and issue = ?i and ?g1.0 = ?t and ?r2.0 = None
      and ?g2.0 = "\<lparr>threadBody = ''Fix [ABC-1](https://issues.example.com/browse/ABC-1) now'', commentText = ''''\<rparr>"]
  show ?thesis
    using t example_body example_thread
    unfolding ev g by (simp add: p)
qed

section \<open>Properties of the validator\<close>

lemma validate_calls:
  "\<exists>new. jiraCalls (snd (validate jc cs refs0 w)) = jiraCalls w @ new
     \<and> logs (snd (validate jc cs refs0 w)) = logs w @ failureLogs new
     \<and> github (snd (validate jc cs refs0 w)) = github w
     \<and> githubCalls (snd (validate jc cs refs0 w)) = githubCalls w
     \<and> fst (validate jc cs refs0 w) = refs0 @ confirmedBy new
     \<and> length (lookups new) = length new
     \<and> set (lookups new) \<subseteq> set cs - set refs0
     \<and> (distinct refs0 \<longrightarrow> distinct (refs0 @ confirmedBy new))
     \<and> (\<forall>m\<in>set cs. m \<in> set refs0 \<or> m \<in> set (lookups new))
     \<and> (\<forall>m. m \<notin> set (refs0 @ confirmedBy new) \<longrightarrow> count_list (lookups new) m = count_list cs m)"
proof (induction cs arbitrary: refs0 w)
  case Nil
  show ?case by (rule exI[of _ "[]"]) simp
next
  case (Cons match rest)
  show ?case
  proof (cases "match \<in> set refs0")
    case True
    obtain new where n: "jiraCalls (snd (validate jc rest refs0 w)) = jiraCalls w @ new"
      "logs (snd (validate jc rest refs0 w)) = logs w @ failureLogs new"
      "github (snd (validate jc rest refs0 w)) = github w"
      "githubCalls (snd (validate jc rest refs0 w)) = githubCalls w"
      "fst (validate jc rest refs0 w) = refs0 @ confirmedBy new"
      "length (lookups new) = length new"
      "set (lookups new) \<subseteq> set rest - set refs0"
      "distinct refs0 \<longrightarrow> distinct (refs0 @ confirmedBy new)"
      "\<forall>m\<in>set rest. m \<in> set refs0 \<or> m \<in> set (lookups new)"
      "\<forall>m. m \<notin> set (refs0 @ confirmedBy new) \<longrightarrow> count_list (lookups new) m = count_list rest m"
      using Cons.IH[of refs0 w] by blast
    have v: "validate jc (match # rest) refs0 w = validate jc rest refs0 w" using True by simp
    have "\<forall>m. m \<notin> set (refs0 @ confirmedBy new) \<longrightarrow> count_list (lookups new) m = count_list (match # rest) m"
      using n(10) True by auto
    moreover have "set (lookups new) \<subseteq> set (match # rest) - set refs0" using n(7) by auto
    moreover have "\<forall>m\<in>set (match # rest). m \<in> set refs0 \<or> m \<in> set (lookups new)" using n(9) True by auto
    ultimately show ?thesis unfolding v using n(1,2,3,4,5,6,8) by blast
  next
    case False
    obtain r j1 where l: "JiraGetIssue jc match (jira w) = (r, j1)" by (cases "JiraGetIssue jc match (jira w)")
    let ?c = "CallJiraGetIssue match r"
    let ?w1 = "callJira ?c j1 w"
    show ?thesis
    proof (cases r)
      case None
      let ?refs1 = "refs0 @ [match]"
      have v: "validate jc (match # rest) refs0 w = validate jc rest ?refs1 ?w1"
        using False l None by simp
      obtain new where n: "jiraCalls (snd (validate jc rest ?refs1 ?w1)) = jiraCalls ?w1 @ new"
        "logs (snd (validate jc rest ?refs1 ?w1)) = logs ?w1 @ failureLogs new"
        "github (snd (validate jc rest ?refs1 ?w1)) = github ?w1"
        "githubCalls (snd (validate jc rest ?refs1 ?w1)) = githubCalls ?w1"
        "fst (validate jc rest ?refs1 ?w1) = ?refs1 @ confirmedBy new"
        "length (lookups new) = length new"
        "set (lookups new) \<subseteq> set rest - set ?refs1"
        "distinct ?refs1 \<longrightarrow> distinct (?refs1 @ confirmedBy new)"
        "\<forall>m\<in>set rest. m \<in> set ?refs1 \<or> m \<in> set (lookups new)"
        "\<forall>m. m \<notin> set (?refs1 @ confirmedBy new) \<longrightarrow> count_list (lookups new) m = count_list rest m"
        using Cons.IH[of ?refs1 ?w1] by blast
      let ?new = "?c # new"
      have cb: "confirmedBy ?new = match # confirmedBy new" using None by simp
      have lk: "lookups ?new = match # lookups new" by simp
      have fl: "failureLogs ?new = failureLogs new" using None by simp
      have 1: "jiraCalls (snd (validate jc rest ?refs1 ?w1)) = jiraCalls w @ ?new" using n(1) by simp
      have 2: "logs (snd (validate jc rest ?refs1 ?w1)) = logs w @ failureLogs ?new" using n(2) fl by simp
      have 3: "github (snd (validate jc rest ?refs1 ?w1)) = github w"
        "githubCalls (snd (validate jc rest ?refs1 ?w1)) = githubCalls w" using n(3,4) by simp_all
      have 5: "fst (validate jc rest ?refs1 ?w1) = refs0 @ confirmedBy ?new" using n(5) cb by simp
      have 6: "length (lookups ?new) = length ?new" using n(6) by simp
      have 7: "set (lookups ?new) \<subseteq> set (match # rest) - set refs0" using n(7) False by auto
      have 8: "distinct refs0 \<longrightarrow> distinct (refs0 @ confirmedBy ?new)" using n(8) False cb by simp
      have 9: "\<forall>m\<in>set (match # rest). m \<in> set refs0 \<or> m \<in> set (lookups ?new)" using n(9) by auto
      have 10: "\<forall>m. m \<notin> set (refs0 @ confirmedBy ?new) \<longrightarrow> count_list (lookups ?new) m = count_list (match # rest) m"
        using n(10) cb by auto
      show ?thesis unfolding v using 1 2 3 5 6 7 8 9 10 by blast
    next
      case (Some err)
      let ?w2 = "if \<not> IsNotFound err then logEntry (LogError ''Failed to get issue'' (Some match) err) ?w1 else ?w1"
      have v: "validate jc (match # rest) refs0 w = validate jc rest refs0 ?w2"
        using False l Some by simp
      obtain new where n: "jiraCalls (snd (validate jc rest refs0 ?w2)) = jiraCalls ?w2 @ new"
        "logs (snd (validate jc rest refs0 ?w2)) = logs ?w2 @ failureLogs new"
        "github (snd (validate jc rest refs0 ?w2)) = github ?w2"
        "githubCalls (snd (validate jc rest refs0 ?w2)) = githubCalls ?w2"
        "fst (validate jc rest refs0 ?w2) = refs0 @ confirmedBy new"
        "length (lookups new) = length new"
        "set (lookups new) \<subseteq> set rest - set refs0"
        "distinct refs0 \<longrightarrow> distinct (refs0 @ confirmedBy new)"
        "\<forall>m\<in>set rest. m \<in> set refs0 \<or> m \<in> set (lookups new)"
        "\<forall>m. m \<notin> set (refs0 @ confirmedBy new) \<longrightarrow> count_list (lookups new) m = count_list rest m"
        using Cons.IH[of refs0 ?w2] by blast
      let ?new = "?c # new"
      have cb: "confirmedBy ?new = confirmedBy new" using Some by simp
      have fl: "failureLogs ?new =
          (if IsNotFound err then [] else [LogError ''Failed to get issue'' (Some match) err]) @ failureLogs new"
        using Some by simp
      have w2: "jiraCalls ?w2 = jiraCalls w @ [?c]" "github ?w2 = github w" "githubCalls ?w2 = githubCalls w"
        "logs ?w2 = logs w @ (if IsNotFound err then [] else [LogError ''Failed to get issue'' (Some match) err])"
        by simp_all
      have 1: "jiraCalls (snd (validate jc rest refs0 ?w2)) = jiraCalls w @ ?new" using n(1) w2(1) by simp
      have 2: "logs (snd (validate jc rest refs0 ?w2)) = logs w @ failureLogs ?new"
        using n(2) w2(4) fl by simp
      have 3: "github (snd (validate jc rest refs0 ?w2)) = github w"
        "githubCalls (snd (validate jc rest refs0 ?w2)) = githubCalls w" using n(3,4) w2(2,3) by simp_all
      have 5: "fst (validate jc rest refs0 ?w2) = refs0 @ confirmedBy ?new" using n(5) cb by simp
      have 6: "length (lookups ?new) = length ?new" using n(6) by simp
      have 7: "set (lookups ?new) \<subseteq> set (match # rest) - set refs0" using n(7) False by auto
      have 8: "distinct refs0 \<longrightarrow> distinct (refs0 @ confirmedBy ?new)" using n(8) cb by simp
      have 9: "\<forall>m\<in>set (match # rest). m \<in> set refs0 \<or> m \<in> set (lookups ?new)" using n(9) by auto
      have 10: "\<forall>m. m \<notin> set (refs0 @ confirmedBy ?new) \<longrightarrow> count_list (lookups ?new) m = count_list (match # rest) m"
        using n(10) cb by auto
      show ?thesis unfolding v using 1 2 3 5 6 7 8 9 10 by blast
    qed
  qed
qed

lemma newLogs_append: "logs w' = logs w @ new \<Longrightarrow> newLogs w w' = new"
  by (simp add: newLogs_def)

text \<open>
  Claim C5, as the code has it.  The validator does not issue exactly one lookup per
  unique candidate: it skips a candidate only when it is already confirmed, so a
  candidate whose lookup fails is looked up again at its next occurrence.
\<close>

theorem validate_repeats_failed_lookup:
  "newJiraCalls (startWorld [] \<lparr>threadBody = '''', commentText = ''''\<rparr>)
     (snd (handle (tracker [] ''https://issues.example.com'') platform
             (event ''created'' ''QWE-1 and QWE-1'' ''title'' (Some 5))
             (startWorld [] \<lparr>threadBody = '''', commentText = ''''\<rparr>)))
   = [CallJiraGetIssue ''QWE-1'' (Some NotFound), CallJiraGetIssue ''QWE-1'' (Some NotFound)]"
  by code_simp

text \<open>
  Claim C5, amended.  The validator calls the tracker only to look candidates up, and
  looks every unique candidate up at least once.  It skips a candidate only when an
  equal string is already confirmed: the result is exactly the candidates that had a
  successful lookup, each once, in the order of their first success, and a candidate
  that is never confirmed is looked up at each of its occurrences.  A lookup that fails
  with not-found leaves no trace in the log, any other failure is logged, and in both
  cases the remaining candidates are still processed.  The discussion platform is not
  touched.
\<close>

theorem validate_lookups:
  "jiraCalls (snd (validate jc cands [] w))
      = jiraCalls w @ newJiraCalls w (snd (validate jc cands [] w))
   \<and> length (lookups (newJiraCalls w (snd (validate jc cands [] w))))
      = length (newJiraCalls w (snd (validate jc cands [] w)))
   \<and> set (lookups (newJiraCalls w (snd (validate jc cands [] w)))) = set cands
   \<and> fst (validate jc cands [] w) = confirmedBy (newJiraCalls w (snd (validate jc cands [] w)))
   \<and> distinct (fst (validate jc cands [] w))
   \<and> (\<forall>m. m \<notin> set (fst (validate jc cands [] w)) \<longrightarrow>
         count_list (lookups (newJiraCalls w (snd (validate jc cands [] w)))) m = count_list cands m)
   \<and> newLogs w (snd (validate jc cands [] w))
      = failureLogs (newJiraCalls w (snd (validate jc cands [] w)))
   \<and> github (snd (validate jc cands [] w)) = github w
   \<and> githubCalls (snd (validate jc cands [] w)) = githubCalls w"
proof -
  let ?V = "validate jc cands [] w"
  have "\<exists>new. jiraCalls (snd ?V) = jiraCalls w @ new
     \<and> logs (snd ?V) = logs w @ failureLogs new
     \<and> github (snd ?V) = github w
     \<and> githubCalls (snd ?V) = githubCalls w
     \<and> fst ?V = confirmedBy new
     \<and> length (lookups new) = length new
     \<and> set (lookups new) \<subseteq> set cands
     \<and> distinct (confirmedBy new)
     \<and> (\<forall>m\<in>set cands. m \<in> set (lookups new))
     \<and> (\<forall>m. m \<notin> set (confirmedBy new) \<longrightarrow> count_list (lookups new) m = count_list cands m)"
    using validate_calls[of jc cands "[]" w] by simp
  then obtain new where n: "jiraCalls (snd ?V) = jiraCalls w @ new"
      "logs (snd ?V) = logs w @ failureLogs new"
      "github (snd ?V) = github w"
      "githubCalls (snd ?V) = githubCalls w"
      "fst ?V = confirmedBy new"
      "length (lookups new) = length new"
      "set (lookups new) \<subseteq> set cands"
      "distinct (confirmedBy new)"
      "\<forall>m\<in>set cands. m \<in> set (lookups new)"
      "\<forall>m. m \<notin> set (confirmedBy new) \<longrightarrow> count_list (lookups new) m = count_list cands m"
    by blast
  have N: "newJiraCalls w (snd ?V) = new" using n(1) by (rule newJiraCalls_append)
  have L: "newLogs w (snd ?V) = failureLogs new" using n(2) by (rule newLogs_append)
  have s: "set (lookups new) = set cands" using n(7,9) by auto
  show ?thesis unfolding N L using n(1,3,4,5,6,8,10) s by simp
qed

lemma example_validate:
  "newJiraCalls (startWorld [] ())
     (snd (validate (tracker [''ABC-1''] ''https://issues.example.com'')
             [''ABC-1'', ''QWE-1'', ''ABC-1'', ''QWE-1''] [] (startWorld [] ())))
   = [CallJiraGetIssue ''ABC-1'' None, CallJiraGetIssue ''QWE-1'' (Some NotFound),
      CallJiraGetIssue ''QWE-1'' (Some NotFound)]"
  by code_simp

theorem validate_lookups_witness:
  "fst (validate (tracker [''ABC-1''] ''https://issues.example.com'')
          [''ABC-1'', ''QWE-1'', ''ABC-1'', ''QWE-1''] [] (startWorld [] ())) = [''ABC-1'']
   \<and> newLogs (startWorld [] ())
        (snd (validate (tracker [''ABC-1''] ''https://issues.example.com'')
               [''ABC-1'', ''QWE-1'', ''ABC-1'', ''QWE-1''] [] (startWorld [] ()))) = []
   \<and> lookups (newJiraCalls (startWorld [] ())
        (snd (validate (tracker [''ABC-1''] ''https://issues.example.com'')
               [''ABC-1'', ''QWE-1'', ''ABC-1'', ''QWE-1''] [] (startWorld [] ()))))
      = [''ABC-1'', ''QWE-1'', ''QWE-1'']"
  using validate_lookups[of "tracker [''ABC-1''] ''https://issues.example.com''"
      "[''ABC-1'', ''QWE-1'', ''ABC-1'', ''QWE-1'']" "startWorld [] ()"]
  unfolding example_validate by simp

section \<open>Properties of the upserts run by the handler\<close>





section \<open>Properties of the handler as a whole\<close>

lemma newGithubCalls_same: "githubCalls w' = githubCalls w \<Longrightarrow> newGithubCalls w w' = []"
  by (simp add: newGithubCalls_def)















end
